theory Spec2Isabelle
  imports Complex_Main "HOL-Library.Multiset"
begin

section \<open>Data model\<close>

text \<open>
  The rating and statistics logic of the game catalogue lives in three Mongoose models:
  Game (\<^verbatim>\<open>src/unnamed/part_000\<close>), Category and Review (both in
  \<^verbatim>\<open>src/models/Category.js\<close>), and in the review routes of
  \<^verbatim>\<open>src/routes/users.js\<close>. Documents are records holding the schema fields the
  aggregation code reads or writes. An ObjectId is a natural number; two ids are the same
  document exactly when the numbers are equal (the source compares their \<^verbatim>\<open>toString()\<close>).

  JavaScript Numbers are modelled exactly: counters as \<open>int\<close>, averages and scores as
  \<open>rat\<close>. Rounding error of IEEE doubles is outside the model; every statement about an
  average below is about the exact quotient.
\<close>

type_synonym oid = nat

datatype gstatus = GameActive | GameInactive | GameMaintenance

datatype rstatus = ReviewActive | ReviewHidden | ReviewDeleted

datatype report_reason = Spam | Inappropriate | Offensive | Other

text \<open>
  JavaScript never raises on arithmetic: a division by zero yields \<^verbatim>\<open>NaN\<close> or
  \<^verbatim>\<open>Infinity\<close>, and \<^verbatim>\<open>obj[k] += 1\<close> on a key the object does not have yields
  \<^verbatim>\<open>NaN\<close>. The model has no such Numbers. Where the source would produce one, the model
  stops with a fault that names the cause.
\<close>

datatype fault = UndeclaredBucket | ZeroDivisor

definition js_div :: "rat \<Rightarrow> rat \<Rightarrow> fault + rat" where
  "js_div a b = (if b = 0 then Inl ZeroDivisor else Inr (a / b))"

text \<open>\<^verbatim>\<open>Math.round\<close> rounds to the nearest integer, halves towards plus infinity.\<close>

definition Math_round :: "rat \<Rightarrow> int" where
  "Math_round x = \<lfloor>x + 1 / 2\<rfloor>"

subsection \<open>Game\<close>

text \<open>
  \<^verbatim>\<open>rating.distribution\<close> has exactly the keys '1' to '5', each a Number with default 0.
\<close>

record distribution =
  star1 :: int
  star2 :: int
  star3 :: int
  star4 :: int
  star5 :: int

record game =
  game_id :: oid
  game_category :: oid
  rating_average :: rat
  rating_count :: int
  rating_distribution :: distribution
  stats_playCount :: int
  stats_favoriteCount :: int
  game_status :: gstatus

definition zero_distribution :: distribution where
  "zero_distribution = \<lparr>star1 = 0, star2 = 0, star3 = 0, star4 = 0, star5 = 0\<rparr>"

text \<open>\<^verbatim>\<open>Object.keys(this.rating.distribution)\<close>, read as numbers by \<^verbatim>\<open>parseInt\<close>.\<close>

definition dist_keys :: "int list" where
  "dist_keys = [1, 2, 3, 4, 5]"

text \<open>\<^verbatim>\<open>distribution[k]\<close>: \<open>None\<close> is JavaScript's \<^verbatim>\<open>undefined\<close>.\<close>

definition bucket :: "distribution \<Rightarrow> int \<Rightarrow> int option" where
  "bucket d k =
     (if k = 1 then Some (star1 d)
      else if k = 2 then Some (star2 d)
      else if k = 3 then Some (star3 d)
      else if k = 4 then Some (star4 d)
      else if k = 5 then Some (star5 d)
      else None)"

definition set_bucket :: "distribution \<Rightarrow> int \<Rightarrow> int \<Rightarrow> distribution" where
  "set_bucket d k v =
     (if k = 1 then d\<lparr>star1 := v\<rparr>
      else if k = 2 then d\<lparr>star2 := v\<rparr>
      else if k = 3 then d\<lparr>star3 := v\<rparr>
      else if k = 4 then d\<lparr>star4 := v\<rparr>
      else if k = 5 then d\<lparr>star5 := v\<rparr>
      else d)"

text \<open>\<^verbatim>\<open>distribution[k] += 1\<close> (and \<^verbatim>\<open>distribution[k]++\<close>).\<close>

definition bump :: "distribution \<Rightarrow> int \<Rightarrow> fault + distribution" where
  "bump d k =
     (case bucket d k of
        None \<Rightarrow> Inl UndeclaredBucket
      | Some v \<Rightarrow> Inr (set_bucket d k (v + 1)))"

text \<open>
  The \<^verbatim>\<open>reduce\<close> of \<^verbatim>\<open>updateRating\<close>: the sum over the keys of key times bucket. Every
  key of \<open>dist_keys\<close> is declared, so the \<open>None\<close> branch is never taken.
\<close>

definition totalRating :: "distribution \<Rightarrow> int" where
  "totalRating d =
     foldl (\<lambda>sum k. sum + k * (case bucket d k of Some v \<Rightarrow> v | None \<Rightarrow> 0)) 0 dist_keys"

text \<open>The sum of the five buckets, which the data model relates to \<^verbatim>\<open>rating.count\<close>.\<close>

definition dist_sum :: "distribution \<Rightarrow> int" where
  "dist_sum d = star1 d + star2 d + star3 d + star4 d + star5 d"

text \<open>\<^verbatim>\<open>gameSchema.virtual('ratingLevel')\<close>, part_000 lines 168-174.\<close>

definition ratingLevel :: "game \<Rightarrow> string" where
  "ratingLevel g =
     (if rating_average g \<ge> 4.5 then ''excellent''
      else if rating_average g \<ge> 4.0 then ''very-good''
      else if rating_average g \<ge> 3.5 then ''good''
      else if rating_average g \<ge> 3.0 then ''fair''
      else ''poor'')"

text \<open>
  \<^verbatim>\<open>gameSchema.virtual('popularity')\<close>, part_000 lines 177-182. A virtual is a getter: the
  schema, and so the record, has no field that stores it.
\<close>

definition popularity :: "game \<Rightarrow> rat" where
  "popularity g =
     (let playScore = of_int (stats_playCount g) * 0.4;
          ratingScore = rating_average g * of_int (rating_count g) * 0.3;
          favoriteScore = of_int (stats_favoriteCount g) * 0.3
      in playScore + ratingScore + favoriteScore)"

text \<open>
  \<^verbatim>\<open>gameSchema.methods.updateRating\<close>, part_000 lines 201-217, without the final
  \<^verbatim>\<open>save\<close>: the result is the document as the method leaves it in memory.
\<close>

definition updateRating :: "game \<Rightarrow> int \<Rightarrow> fault + game" where
  "updateRating g newRating =
     (case bump (rating_distribution g) newRating of
        Inl e \<Rightarrow> Inl e
      | Inr d \<Rightarrow>
          (case js_div (of_int (totalRating d)) (of_int (rating_count g + 1)) of
             Inl e \<Rightarrow> Inl e
           | Inr a \<Rightarrow>
               Inr (g\<lparr>rating_distribution := d,
                      rating_average := a,
                      rating_count := rating_count g + 1\<rparr>)))"

text \<open>\<^verbatim>\<open>incrementFavorites\<close> and \<^verbatim>\<open>decrementFavorites\<close>, part_000 lines 220-231.\<close>

definition incrementFavorites :: "game \<Rightarrow> game" where
  "incrementFavorites g = g\<lparr>stats_favoriteCount := stats_favoriteCount g + 1\<rparr>"

definition decrementFavorites :: "game \<Rightarrow> game" where
  "decrementFavorites g =
     (if stats_favoriteCount g > 0
      then g\<lparr>stats_favoriteCount := stats_favoriteCount g - 1\<rparr>
      else g)"

text \<open>A sequence of favourite calls on one game, as the favourite route issues them.\<close>

datatype fav_call = Increment | Decrement

fun fav_step :: "game \<Rightarrow> fav_call \<Rightarrow> game" where
  "fav_step g Increment = incrementFavorites g"
| "fav_step g Decrement = decrementFavorites g"

definition fav_run :: "game \<Rightarrow> fav_call list \<Rightarrow> game" where
  "fav_run g calls = foldl fav_step g calls"

subsection \<open>Category\<close>

record category =
  category_id :: oid
  stats_gameCount :: int
  stats_totalPlayCount :: int
  stats_averageRating :: rat

text \<open>The one document the \<^verbatim>\<open>$group\<close> stage emits.\<close>

record rollup =
  gameCount :: int
  totalPlayCount :: int
  averageRating :: rat

text \<open>The \<^verbatim>\<open>$match\<close> stage of \<^verbatim>\<open>updateStats\<close>: the active games of the category.\<close>

definition matched :: "game list \<Rightarrow> oid \<Rightarrow> game list" where
  "matched gs cid = filter (\<lambda>g. game_category g = cid \<and> game_status g = GameActive) gs"

text \<open>
  \<^verbatim>\<open>Game.aggregate([$match, $group])\<close>: no matching game gives no group and an empty
  result; otherwise one group with the number of games, the sum of their play counts and
  \<^verbatim>\<open>$avg\<close>, the sum of their averages divided by their number.
\<close>

definition aggregate :: "game list \<Rightarrow> oid \<Rightarrow> fault + rollup list" where
  "aggregate gs cid =
     (let ms = matched gs cid in
      if ms = [] then Inr []
      else
        (case js_div (sum_list (map rating_average ms)) (of_nat (length ms)) of
           Inl e \<Rightarrow> Inl e
         | Inr avg \<Rightarrow>
             Inr [\<lparr>gameCount = int (length ms),
                   totalPlayCount = sum_list (map stats_playCount ms),
                   averageRating = avg\<rparr>]))"

text \<open>
  \<^verbatim>\<open>categorySchema.methods.updateStats\<close>, Category.js lines 98-124. The second argument
  is the Game collection at the time of the call; the result is the category document
  that is saved.
\<close>

definition updateStats :: "category \<Rightarrow> game list \<Rightarrow> fault + category" where
  "updateStats c gs =
     (case aggregate gs (category_id c) of
        Inl e \<Rightarrow> Inl e
      | Inr stats \<Rightarrow>
          (case stats of
             s # _ \<Rightarrow>
               Inr (c\<lparr>stats_gameCount := gameCount s,
                      stats_totalPlayCount := totalPlayCount s,
                      stats_averageRating := of_int (Math_round (averageRating s * 10)) / 10\<rparr>)
           | [] \<Rightarrow>
               Inr (c\<lparr>stats_gameCount := 0,
                      stats_totalPlayCount := 0,
                      stats_averageRating := 0\<rparr>)))"

subsection \<open>Review\<close>

record report =
  report_user :: oid
  report_reason :: report_reason
  report_description :: string

record review =
  review_id :: oid
  review_game :: oid
  review_user :: oid
  review_rating :: int
  review_status :: rstatus
  helpful_count :: int
  helpful_users :: "oid list"
  reports :: "report list"

text \<open>\<^verbatim>\<open>Array.prototype.indexOf\<close>: the first index of the element, or -1.\<close>

fun indexOf :: "'a list \<Rightarrow> 'a \<Rightarrow> int" where
  "indexOf [] x = -1"
| "indexOf (y # ys) x =
     (if y = x then 0
      else (let i = indexOf ys x in if i > -1 then i + 1 else -1))"

text \<open>\<^verbatim>\<open>xs.splice(index, 1)\<close> for an index within the array.\<close>

definition splice1 :: "'a list \<Rightarrow> int \<Rightarrow> 'a list" where
  "splice1 xs index = take (nat index) xs @ drop (nat index + 1) xs"

text \<open>
  \<^verbatim>\<open>markHelpful\<close> and \<^verbatim>\<open>unmarkHelpful\<close>, Category.js lines 322-340. The result is the
  review document as the method leaves it. (The \<^verbatim>\<open>save\<close> of the changed document also
  runs the post-save hook, which acts on the game, not on the review.)
\<close>

definition markHelpful :: "review \<Rightarrow> oid \<Rightarrow> review" where
  "markHelpful r userId =
     (if userId \<notin> set (helpful_users r)
      then (let users = helpful_users r @ [userId]
            in r\<lparr>helpful_users := users, helpful_count := int (length users)\<rparr>)
      else r)"

definition unmarkHelpful :: "review \<Rightarrow> oid \<Rightarrow> review" where
  "unmarkHelpful r userId =
     (let index = indexOf (helpful_users r) userId in
      if index > -1
      then (let users = splice1 (helpful_users r) index
            in r\<lparr>helpful_users := users, helpful_count := int (length users)\<rparr>)
      else r)"

text \<open>
  \<^verbatim>\<open>reviewSchema.methods.report\<close>, Category.js lines 343-357. The timestamp Mongoose
  adds to a new entry is not part of the model.
\<close>

definition report :: "review \<Rightarrow> oid \<Rightarrow> report_reason \<Rightarrow> string \<Rightarrow> review" where
  "report r userId reason description =
     (case find (\<lambda>rep. report_user rep = userId) (reports r) of
        None \<Rightarrow>
          r\<lparr>reports := reports r @
               [\<lparr>report_user = userId, report_reason = reason,
                 report_description = description\<rparr>]\<rparr>
      | Some existingReport \<Rightarrow> r)"

text \<open>Any number of report calls on one review, by any users.\<close>

fun report_all :: "review \<Rightarrow> (oid \<times> report_reason \<times> string) list \<Rightarrow> review" where
  "report_all r [] = r"
| "report_all r ((u, reason, description) # calls) =
     report_all (report r u reason description) calls"

definition entries_of :: "oid \<Rightarrow> review \<Rightarrow> nat" where
  "entries_of u r = length (filter (\<lambda>rep. report_user rep = u) (reports r))"

section \<open>The store and the review routes\<close>

text \<open>
  The Game and Review collections. \<^verbatim>\<open>findById\<close> hands out a copy of the stored
  document; a method changes the copy, and \<^verbatim>\<open>save\<close> writes that copy back under its id.
\<close>

record db =
  games :: "game list"
  reviews :: "review list"

definition findById_game :: "db \<Rightarrow> oid \<Rightarrow> game option" where
  "findById_game s i = find (\<lambda>g. game_id g = i) (games s)"

definition findById_review :: "db \<Rightarrow> oid \<Rightarrow> review option" where
  "findById_review s i = find (\<lambda>rv. review_id rv = i) (reviews s)"

definition save_game :: "db \<Rightarrow> game \<Rightarrow> db" where
  "save_game s g = s\<lparr>games := map (\<lambda>h. if game_id h = game_id g then g else h) (games s)\<rparr>"

text \<open>\<^verbatim>\<open>Review.find({game, status: 'active'})\<close>.\<close>

definition active_reviews :: "db \<Rightarrow> oid \<Rightarrow> review list" where
  "active_reviews s gid =
     filter (\<lambda>rv. review_game rv = gid \<and> review_status rv = ReviewActive) (reviews s)"

text \<open>
  \<^verbatim>\<open>reviewSchema.post('save')\<close>, Category.js lines 281-289. The hook is an async function
  of no argument, which Mongoose awaits before \<^verbatim>\<open>save\<close> resolves, so it runs to its end
  before the caller goes on.
\<close>

definition post_save :: "db \<Rightarrow> review \<Rightarrow> fault + db" where
  "post_save s this =
     (if review_status this = ReviewActive then
        (case findById_game s (review_game this) of
           None \<Rightarrow> Inr s
         | Some game \<Rightarrow>
             (case updateRating game (review_rating this) of
                Inl e \<Rightarrow> Inl e
              | Inr game' \<Rightarrow> Inr (save_game s game')))
      else Inr s)"

text \<open>An id no stored review has, for the document \<^verbatim>\<open>Review.create\<close> inserts.\<close>

definition new_review_id :: "db \<Rightarrow> oid" where
  "new_review_id s = Suc (foldr max (map review_id (reviews s)) 0)"

text \<open>
  \<^verbatim>\<open>Review.create\<close> as the POST route calls it: the schema defaults fill in the status
  (active) and the empty moderation state, the document is inserted, and the post-save
  hook runs.
\<close>

definition Review_create :: "db \<Rightarrow> oid \<Rightarrow> oid \<Rightarrow> int \<Rightarrow> fault + db" where
  "Review_create s gid uid rating =
     (let doc = \<lparr>review_id = new_review_id s, review_game = gid, review_user = uid,
                 review_rating = rating, review_status = ReviewActive,
                 helpful_count = 0, helpful_users = [], reports = []\<rparr>
      in post_save (s\<lparr>reviews := reviews s @ [doc]\<rparr>) doc)"

datatype response = Ok | Created | BadRequest | Forbidden | NotFound

text \<open>
  \<^verbatim>\<open>POST /api/reviews\<close>, users.js lines 553-638: the validator on the rating, the lookup
  of the game, the one-active-review-per-user check, \<^verbatim>\<open>Review.create\<close> (with its hook),
  and then \<^verbatim>\<open>updateRating\<close> on \<^verbatim>\<open>gameExists\<close>, the copy of the game that was read before
  the review was created. A request is one that has passed the authentication and
  rate-limit middleware and the validators of the text fields; the user's own review
  counter is not part of the model. Requests are handled one after the other.
\<close>

definition post_review :: "db \<Rightarrow> oid \<Rightarrow> oid \<Rightarrow> int \<Rightarrow> fault + (response \<times> db)" where
  "post_review s gid uid rating =
     (if \<not> (1 \<le> rating \<and> rating \<le> 5) then Inr (BadRequest, s)
      else
        (case findById_game s gid of
           None \<Rightarrow> Inr (NotFound, s)
         | Some gameExists \<Rightarrow>
             (case find (\<lambda>rv. review_game rv = gid \<and> review_user rv = uid \<and>
                               review_status rv = ReviewActive) (reviews s) of
                Some existingReview \<Rightarrow> Inr (BadRequest, s)
              | None \<Rightarrow>
                  (case Review_create s gid uid rating of
                     Inl e \<Rightarrow> Inl e
                   | Inr s1 \<Rightarrow>
                       (case updateRating gameExists rating of
                          Inl e \<Rightarrow> Inl e
                        | Inr game' \<Rightarrow> Inr (Created, save_game s1 game'))))))"

text \<open>A sequence of submissions against one game, each a user and a rating.\<close>

fun submit_all :: "db \<Rightarrow> oid \<Rightarrow> (oid \<times> int) list \<Rightarrow> fault + (response list \<times> db)" where
  "submit_all s gid [] = Inr ([], s)"
| "submit_all s gid ((uid, rating) # rest) =
     (case post_review s gid uid rating of
        Inl e \<Rightarrow> Inl e
      | Inr (resp, s1) \<Rightarrow>
          (case submit_all s1 gid rest of
             Inl e \<Rightarrow> Inl e
           | Inr (resps, s2) \<Rightarrow> Inr (resp # resps, s2)))"

text \<open>\<^verbatim>\<open>reviews.forEach(review => distribution[review.rating]++)\<close>.\<close>

fun tally :: "distribution \<Rightarrow> review list \<Rightarrow> fault + distribution" where
  "tally d [] = Inr d"
| "tally d (rv # rvs) =
     (case bump d (review_rating rv) of
        Inl e \<Rightarrow> Inl e
      | Inr d' \<Rightarrow> tally d' rvs)"

text \<open>
  The recomputation inside the delete hook, Category.js lines 305-313: average, count and
  distribution rebuilt from the reviews that remain.
\<close>

definition rescan :: "game \<Rightarrow> review list \<Rightarrow> fault + game" where
  "rescan game rvs =
     (let totalRating = foldl (\<lambda>sum rv. sum + review_rating rv) 0 rvs in
      case js_div (of_int totalRating) (of_nat (length rvs)) of
        Inl e \<Rightarrow> Inl e
      | Inr a \<Rightarrow>
          (case tally zero_distribution rvs of
             Inl e \<Rightarrow> Inl e
           | Inr d \<Rightarrow>
               Inr (game\<lparr>rating_average := a,
                         rating_count := int (length rvs),
                         rating_distribution := d\<rparr>)))"

text \<open>
  \<^verbatim>\<open>reviewSchema.post('findOneAndDelete')\<close>, Category.js lines 292-319. It runs after the
  document is gone from the collection; \<open>doc\<close> is the deleted document, if there was one.
\<close>

definition post_findOneAndDelete :: "db \<Rightarrow> review option \<Rightarrow> fault + db" where
  "post_findOneAndDelete s doc =
     (case doc of
        None \<Rightarrow> Inr s
      | Some d \<Rightarrow>
          if review_status d = ReviewActive then
            (case findById_game s (review_game d) of
               None \<Rightarrow> Inr s
             | Some game \<Rightarrow>
                 (let rvs = active_reviews s (review_game d) in
                  if length rvs > 0 then
                    (case rescan game rvs of
                       Inl e \<Rightarrow> Inl e
                     | Inr game' \<Rightarrow> Inr (save_game s game'))
                  else Inr s))
          else Inr s)"

fun delete_first :: "('a \<Rightarrow> bool) \<Rightarrow> 'a list \<Rightarrow> 'a list" where
  "delete_first P [] = []"
| "delete_first P (x # xs) = (if P x then xs else x # delete_first P xs)"

text \<open>\<^verbatim>\<open>Review.findByIdAndDelete(id)\<close>, which Mongoose runs as \<^verbatim>\<open>findOneAndDelete\<close>.\<close>

definition findByIdAndDelete :: "db \<Rightarrow> oid \<Rightarrow> fault + db" where
  "findByIdAndDelete s rid =
     post_findOneAndDelete
       (s\<lparr>reviews := delete_first (\<lambda>rv. review_id rv = rid) (reviews s)\<rparr>)
       (findById_review s rid)"

text \<open>
  \<^verbatim>\<open>DELETE /api/reviews/:id\<close>, users.js lines 716-747, for a requester \<open>uid\<close> who is or is
  not an administrator.
\<close>

definition delete_review :: "db \<Rightarrow> oid \<Rightarrow> bool \<Rightarrow> oid \<Rightarrow> fault + (response \<times> db)" where
  "delete_review s uid is_admin rid =
     (case findById_review s rid of
        None \<Rightarrow> Inr (NotFound, s)
      | Some rv \<Rightarrow>
          if review_user rv \<noteq> uid \<and> \<not> is_admin then Inr (Forbidden, s)
          else
            (case findByIdAndDelete s rid of
               Inl e \<Rightarrow> Inl e
             | Inr s' \<Rightarrow> Inr (Ok, s')))"

section \<open>Reachable ratings\<close>

text \<open>
  The rating of a new game is the schema default. The models change a rating in two ways
  only: \<^verbatim>\<open>updateRating\<close> (called whenever a review is saved, and by the review routes)
  and the rescan of the delete hook. Every other write (play statistics, favourites)
  leaves the three rating fields as they are. An administrator overwriting
  \<^verbatim>\<open>rating\<close> through the game update route is not a rating mutation in this sense.
\<close>

definition fresh_rating :: "game \<Rightarrow> bool" where
  "fresh_rating g \<longleftrightarrow>
     rating_average g = 0 \<and> rating_count g = 0 \<and> rating_distribution g = zero_distribution"

inductive reachable :: "game \<Rightarrow> bool" where
  new_game: "fresh_rating g \<Longrightarrow> reachable g"
| inserted: "reachable g \<Longrightarrow> updateRating g r = Inr g' \<Longrightarrow> reachable g'"
| rescanned: "reachable g \<Longrightarrow> rescan g rvs = Inr g' \<Longrightarrow> reachable g'"
| unrelated: "reachable g \<Longrightarrow> rating_average g' = rating_average g \<Longrightarrow>
     rating_count g' = rating_count g \<Longrightarrow>
     rating_distribution g' = rating_distribution g \<Longrightarrow> reachable g'"

text \<open>
  What every reachable rating satisfies: the buckets add up to the count, the count is not
  negative, and a count of zero goes with an average of zero.
\<close>

definition rating_inv :: "game \<Rightarrow> bool" where
  "rating_inv g \<longleftrightarrow>
     dist_sum (rating_distribution g) = rating_count g \<and> 0 \<le> rating_count g \<and>
     (rating_count g = 0 \<longrightarrow> rating_average g = 0)"

section \<open>Helpful votes in sequence\<close>

datatype vote_call = Mark oid | Unmark oid

fun vote_step :: "review \<Rightarrow> vote_call \<Rightarrow> review" where
  "vote_step r (Mark u) = markHelpful r u"
| "vote_step r (Unmark u) = unmarkHelpful r u"

definition vote_run :: "review \<Rightarrow> vote_call list \<Rightarrow> review" where
  "vote_run r calls = foldl vote_step r calls"

definition helpful_ok :: "review \<Rightarrow> bool" where
  "helpful_ok r \<longleftrightarrow> helpful_count r = int (length (helpful_users r))"

section \<open>Sample documents\<close>

text \<open>A small catalogue on which the statements below are evaluated.\<close>

definition demo_game :: game where
  "demo_game = \<lparr>game_id = 1, game_category = 7, rating_average = 0, rating_count = 0,
     rating_distribution = zero_distribution, stats_playCount = 0, stats_favoriteCount = 0,
     game_status = GameActive\<rparr>"

definition demo_rated :: game where
  "demo_rated = demo_game\<lparr>rating_average := 11 / 3, rating_count := 3,
     rating_distribution := \<lparr>star1 = 1, star2 = 0, star3 = 0, star4 = 0, star5 = 2\<rparr>\<rparr>"

definition demo_category :: category where
  "demo_category = \<lparr>category_id = 7, stats_gameCount = 0, stats_totalPlayCount = 0,
     stats_averageRating = 0\<rparr>"

text \<open>
  Four games: two active ones in category 7 with averages 4 and 2 (and 1 and 3 reviews), an
  inactive one in category 7, and an active one in category 8.
\<close>

definition demo_games :: "game list" where
  "demo_games =
     [demo_game\<lparr>game_id := 1, rating_average := 4, rating_count := 1, stats_playCount := 10\<rparr>,
      demo_game\<lparr>game_id := 2, rating_average := 5, rating_count := 9,
                 game_status := GameInactive\<rparr>,
      demo_game\<lparr>game_id := 3, rating_average := 1, rating_count := 2, game_category := 8\<rparr>,
      demo_game\<lparr>game_id := 4, rating_average := 2, rating_count := 3, stats_playCount := 5\<rparr>]"

definition demo_reviews :: "review list" where
  "demo_reviews =
     [\<lparr>review_id = 1, review_game = 1, review_user = 10, review_rating = 5,
       review_status = ReviewActive, helpful_count = 0, helpful_users = [], reports = []\<rparr>,
      \<lparr>review_id = 2, review_game = 1, review_user = 11, review_rating = 2,
       review_status = ReviewActive, helpful_count = 0, helpful_users = [], reports = []\<rparr>]"

definition demo_review :: review where
  "demo_review = \<lparr>review_id = 1, review_game = 1, review_user = 10, review_rating = 5,
     review_status = ReviewActive, helpful_count = 1, helpful_users = [21], reports = []\<rparr>"

text \<open>Two new games and no review yet.\<close>

definition demo_db :: db where
  "demo_db = \<lparr>games = [demo_game, demo_game\<lparr>game_id := 2\<rparr>], reviews = []\<rparr>"

text \<open>The scenario of the specification: reviews 5, 5, 5 and 1 by four users.\<close>

definition demo_subs :: "(oid \<times> int) list" where
  "demo_subs = [(10, 5), (11, 5), (12, 5), (13, 1)]"

text \<open>The store after user 10 has reviewed game 1 with five stars.\<close>

definition demo_one_review :: db where
  "demo_one_review =
     \<lparr>games = [demo_game\<lparr>rating_average := 5, rating_count := 1,
         rating_distribution := \<lparr>star1 = 0, star2 = 0, star3 = 0, star4 = 0, star5 = 1\<rparr>\<rparr>,
         demo_game\<lparr>game_id := 2\<rparr>],
      reviews = [hd demo_reviews]\<rparr>"

section \<open>Rating level and popularity\<close>

text \<open>
  C6. The rating level is a step function of the average alone: each of the five levels is
  returned on exactly its interval, with the thresholds 4.5, 4.0, 3.5 and 3.0 belonging to
  the higher level; 4.5 is excellent, 4.49999 very-good, 3.0 fair and 0 poor.
\<close>

theorem ratingLevel_steps:
  "(ratingLevel g = ''excellent'') = (rating_average g \<ge> 4.5)
   \<and> (ratingLevel g = ''very-good'') = (rating_average g \<ge> 4.0 \<and> rating_average g < 4.5)
   \<and> (ratingLevel g = ''good'') = (rating_average g \<ge> 3.5 \<and> rating_average g < 4.0)
   \<and> (ratingLevel g = ''fair'') = (rating_average g \<ge> 3.0 \<and> rating_average g < 3.5)
   \<and> (ratingLevel g = ''poor'') = (rating_average g < 3.0)
   \<and> ratingLevel (g\<lparr>rating_average := 4.5\<rparr>) = ''excellent''
   \<and> ratingLevel (g\<lparr>rating_average := 4.49999\<rparr>) = ''very-good''
   \<and> ratingLevel (g\<lparr>rating_average := 3.0\<rparr>) = ''fair''
   \<and> ratingLevel (g\<lparr>rating_average := 0\<rparr>) = ''poor''"
  by (simp add: ratingLevel_def not_le)

text \<open>
  C8. The popularity a read returns is play count times 0.4 plus average times count times
  0.3 plus favourite count times 0.3, taken from the fields the document holds at that
  moment: whatever the four fields are set to, the next read is the formula on the new
  values. Nothing is stored; the getter is the only place the score exists.
\<close>

theorem popularity_formula:
  "popularity g =
     of_int (stats_playCount g) * 0.4
     + rating_average g * of_int (rating_count g) * 0.3
     + of_int (stats_favoriteCount g) * 0.3
   \<and> popularity (g\<lparr>stats_playCount := p, rating_average := a, rating_count := n,
                    stats_favoriteCount := f\<rparr>) =
     of_int p * 0.4 + a * of_int n * 0.3 + of_int f * 0.3
   \<and> popularity (incrementFavorites g) = popularity g + 0.3"
  by (simp add: popularity_def incrementFavorites_def Let_def algebra_simps)

section \<open>The favourite counter\<close>

lemma fav_step_nonneg:
  "0 \<le> stats_favoriteCount g \<Longrightarrow> 0 \<le> stats_favoriteCount (fav_step g c)"
  by (cases c) (simp_all add: incrementFavorites_def decrementFavorites_def)

lemma fav_run_nonneg:
  "0 \<le> stats_favoriteCount g \<Longrightarrow> 0 \<le> stats_favoriteCount (fav_run g calls)"
  unfolding fav_run_def
  by (induction calls arbitrary: g) (simp_all add: fav_step_nonneg)

text \<open>
  C4. Starting from a favourite count that is not negative, no sequence of increment and
  decrement calls makes it negative; a decrement at zero returns the game unchanged, and an
  increment adds exactly one.
\<close>

theorem favoriteCount_never_negative:
  assumes "0 \<le> stats_favoriteCount g"
  shows "0 \<le> stats_favoriteCount (fav_run g calls)
    \<and> (stats_favoriteCount g = 0 \<longrightarrow> decrementFavorites g = g)
    \<and> stats_favoriteCount (incrementFavorites g) = stats_favoriteCount g + 1"
  using assms by (simp add: fav_run_nonneg decrementFavorites_def incrementFavorites_def)

text \<open>On a new game: a decrement first, then one favourite added and removed twice.\<close>

theorem favoriteCount_never_negative_witness:
  "0 \<le> stats_favoriteCount demo_game
   \<and> stats_favoriteCount (fav_run demo_game [Decrement, Increment, Decrement, Decrement]) = 0
   \<and> decrementFavorites demo_game = demo_game
   \<and> stats_favoriteCount (incrementFavorites demo_game) = 1"
  using favoriteCount_never_negative [of demo_game "[Decrement, Increment, Decrement, Decrement]"]
  by (simp add: demo_game_def fav_run_def incrementFavorites_def decrementFavorites_def)

section \<open>Helpful votes\<close>

text \<open>
  \<^verbatim>\<open>helpful.users\<close> is a Mongoose array of ObjectIds, whose \<^verbatim>\<open>includes\<close> and
  \<^verbatim>\<open>indexOf\<close> compare ids. Removing the element at its first index is \<open>remove1\<close>.
\<close>

lemma distinct_count_list_le: "distinct xs \<Longrightarrow> count_list xs u \<le> 1"
  by (induction xs) auto

lemma indexOf_ge: "indexOf xs x \<ge> -1"
  by (induction xs) (simp_all add: Let_def)

lemma indexOf_found: "(indexOf xs x > -1) = (x \<in> set xs)"
  by (induction xs) (auto simp: Let_def)

lemma splice1_indexOf: "x \<in> set xs \<Longrightarrow> splice1 xs (indexOf xs x) = remove1 x xs"
proof (induction xs)
  case Nil
  then show ?case by simp
next
  case (Cons y ys)
  show ?case
  proof (cases "y = x")
    case True
    then show ?thesis by (simp add: splice1_def)
  next
    case False
    with Cons.prems have mem: "x \<in> set ys" by simp
    then have pos: "indexOf ys x > -1" by (simp add: indexOf_found)
    then have n: "nat (indexOf ys x + 1) = Suc (nat (indexOf ys x))" by simp
    from Cons.IH [OF mem] False pos show ?thesis
      by (simp add: splice1_def Let_def n)
  qed
qed

lemma unmarkHelpful_remove1:
  "unmarkHelpful r u =
     (if u \<in> set (helpful_users r)
      then r\<lparr>helpful_users := remove1 u (helpful_users r),
              helpful_count := int (length (remove1 u (helpful_users r)))\<rparr>
      else r)"
  by (simp add: unmarkHelpful_def Let_def indexOf_found splice1_indexOf)

lemma markHelpful_ok: "helpful_ok r \<Longrightarrow> helpful_ok (markHelpful r u)"
  by (simp add: helpful_ok_def markHelpful_def Let_def)

lemma unmarkHelpful_ok: "helpful_ok r \<Longrightarrow> helpful_ok (unmarkHelpful r u)"
  by (simp add: helpful_ok_def unmarkHelpful_remove1)

lemma markHelpful_distinct:
  "distinct (helpful_users r) \<Longrightarrow> distinct (helpful_users (markHelpful r u))"
  by (simp add: markHelpful_def Let_def)

lemma unmarkHelpful_distinct:
  "distinct (helpful_users r) \<Longrightarrow> distinct (helpful_users (unmarkHelpful r u))"
  by (simp add: unmarkHelpful_remove1)

lemma vote_step_inv:
  "helpful_ok r \<and> distinct (helpful_users r) \<Longrightarrow>
   helpful_ok (vote_step r c) \<and> distinct (helpful_users (vote_step r c))"
  by (cases c)
     (simp_all add: markHelpful_ok unmarkHelpful_ok markHelpful_distinct unmarkHelpful_distinct)

lemma vote_run_inv:
  "helpful_ok r \<and> distinct (helpful_users r) \<Longrightarrow>
   helpful_ok (vote_run r calls) \<and> distinct (helpful_users (vote_run r calls))"
  unfolding vote_run_def
proof (induction calls arbitrary: r)
  case Nil
  then show ?case by simp
next
  case (Cons c calls)
  from Cons.IH [OF vote_step_inv [OF Cons.prems]] show ?case by simp
qed

text \<open>
  C9. Marking and unmarking keep \<^verbatim>\<open>helpful.count\<close> equal to the length of
  \<^verbatim>\<open>helpful.users\<close>. Marking by a user who is in the list, and unmarking by a user who is
  not, return the review unchanged. So from a review whose list has no duplicate (a new
  review has an empty list), after any sequence of calls every user is in the list at most
  once and the count is the number of different users in it.
\<close>

theorem helpful_votes:
  "(helpful_ok r \<longrightarrow> helpful_ok (markHelpful r u) \<and> helpful_ok (unmarkHelpful r u))
   \<and> (u \<in> set (helpful_users r) \<longrightarrow> markHelpful r u = r)
   \<and> (u \<notin> set (helpful_users r) \<longrightarrow> unmarkHelpful r u = r)
   \<and> (helpful_ok r \<and> distinct (helpful_users r) \<longrightarrow>
        helpful_ok (vote_run r calls)
        \<and> count_list (helpful_users (vote_run r calls)) u \<le> 1
        \<and> helpful_count (vote_run r calls) = int (card (set (helpful_users (vote_run r calls)))))"
proof (intro conjI impI)
  assume "helpful_ok r"
  then show "helpful_ok (markHelpful r u)" by (rule markHelpful_ok)
next
  assume "helpful_ok r"
  then show "helpful_ok (unmarkHelpful r u)" by (rule unmarkHelpful_ok)
next
  assume "u \<in> set (helpful_users r)"
  then show "markHelpful r u = r" by (simp add: markHelpful_def)
next
  assume "u \<notin> set (helpful_users r)"
  then show "unmarkHelpful r u = r" by (simp add: unmarkHelpful_remove1)
next
  assume a: "helpful_ok r \<and> distinct (helpful_users r)"
  from vote_run_inv [OF a] show "helpful_ok (vote_run r calls)" by simp
next
  assume a: "helpful_ok r \<and> distinct (helpful_users r)"
  from vote_run_inv [OF a] have "distinct (helpful_users (vote_run r calls))" by simp
  then show "count_list (helpful_users (vote_run r calls)) u \<le> 1"
    by (rule distinct_count_list_le)
next
  assume a: "helpful_ok r \<and> distinct (helpful_users r)"
  from vote_run_inv [OF a] show
    "helpful_count (vote_run r calls) = int (card (set (helpful_users (vote_run r calls))))"
    by (simp add: helpful_ok_def distinct_card)
qed

text \<open>
  A review with one vote, by user 21: user 22 marks twice, user 21 unmarks twice, user 23
  marks once, and the count is 2.
\<close>

theorem helpful_votes_witness:
  "helpful_ok demo_review \<and> distinct (helpful_users demo_review)
   \<and> 21 \<in> set (helpful_users demo_review)
   \<and> markHelpful demo_review 21 = demo_review
   \<and> 22 \<notin> set (helpful_users demo_review)
   \<and> unmarkHelpful demo_review 22 = demo_review
   \<and> helpful_count (vote_run demo_review [Mark 22, Mark 22, Unmark 21, Unmark 21, Mark 23]) = 2"
proof -
  have ok: "helpful_ok demo_review" by (simp add: helpful_ok_def demo_review_def)
  have d: "distinct (helpful_users demo_review)" by (simp add: demo_review_def)
  have run: "helpful_users (vote_run demo_review [Mark 22, Mark 22, Unmark 21, Unmark 21, Mark 23]) = [22, 23]"
    by (simp add: vote_run_def demo_review_def markHelpful_def unmarkHelpful_def splice1_def Let_def)
  note t = helpful_votes [of demo_review 21 "[Mark 22, Mark 22, Unmark 21, Unmark 21, Mark 23]"]
  note t2 = helpful_votes [of demo_review 22 "[]"]
  have m: "21 \<in> set (helpful_users demo_review)" "22 \<notin> set (helpful_users demo_review)"
    by (simp_all add: demo_review_def)
  from t t2 ok d m run show ?thesis by simp
qed

section \<open>Reports\<close>

lemma find_user_None: "(find (\<lambda>rep. report_user rep = u) xs = None) = (u \<notin> report_user ` set xs)"
  by (induction xs) auto

lemma report_existing:
  assumes "u \<in> report_user ` set (reports r)"
  shows "report r u reason d = r"
proof -
  from assms have "find (\<lambda>rep. report_user rep = u) (reports r) \<noteq> None"
    by (simp add: find_user_None)
  then show ?thesis by (auto simp: report_def)
qed

lemma entries_of_zero: "(entries_of u r = 0) = (u \<notin> report_user ` set (reports r))"
  by (auto simp: entries_of_def filter_empty_conv)

lemma entries_of_pos: "(0 < entries_of u r) = (u \<in> report_user ` set (reports r))"
  using entries_of_zero [of u r] by auto

lemma report_entries:
  "entries_of v (report r u reason d) =
     (if v = u \<and> u \<notin> report_user ` set (reports r) then 1 else entries_of v r)"
proof (cases "u \<in> report_user ` set (reports r)")
  case True
  then show ?thesis by (simp add: report_existing)
next
  case False
  then have "find (\<lambda>rep. report_user rep = u) (reports r) = None"
    by (simp add: find_user_None)
  moreover from False have "entries_of u r = 0" by (simp add: entries_of_zero)
  ultimately show ?thesis using False by (auto simp: report_def entries_of_def)
qed

lemma report_at_most_once:
  "\<forall>v. entries_of v r \<le> 1 \<Longrightarrow> \<forall>v. entries_of v (report r u reason d) \<le> 1"
  by (simp add: report_entries)

lemma report_all_at_most_once:
  "\<forall>v. entries_of v r \<le> 1 \<Longrightarrow> \<forall>v. entries_of v (report_all r calls) \<le> 1"
proof (induction r calls rule: report_all.induct)
  case (1 r)
  then show ?case by simp
next
  case (2 r u reason description calls)
  from "2.IH" [OF report_at_most_once [OF "2.prems"]] show ?case by simp
qed

text \<open>
  C10. A report by a user who already has an entry in \<^verbatim>\<open>reports\<close> returns the review
  unchanged; in particular a second report right after the first changes nothing, whatever
  reason it gives. If every user has at most one entry (a new review has none), that
  remains so after any sequence of report calls.
\<close>

theorem report_idempotent_per_user:
  "(u \<in> report_user ` set (reports r) \<longrightarrow> report r u reason d = r)
   \<and> report (report r u reason d) u reason' d' = report r u reason d
   \<and> ((\<forall>v. entries_of v r \<le> 1) \<longrightarrow> (\<forall>v. entries_of v (report_all r calls) \<le> 1))"
proof (intro conjI impI)
  assume "u \<in> report_user ` set (reports r)"
  then show "report r u reason d = r" by (rule report_existing)
next
  have "entries_of u (report r u reason d) \<noteq> 0"
    by (simp add: report_entries entries_of_pos)
  then have "u \<in> report_user ` set (reports (report r u reason d))"
    by (simp add: entries_of_zero)
  then show "report (report r u reason d) u reason' d' = report r u reason d"
    by (rule report_existing)
next
  assume "\<forall>v. entries_of v r \<le> 1"
  then show "\<forall>v. entries_of v (report_all r calls) \<le> 1" by (rule report_all_at_most_once)
qed

text \<open>User 30 reports, user 31 reports, user 30 reports again: one entry for user 30.\<close>

theorem report_idempotent_per_user_witness:
  "(let r1 = report demo_review 30 Spam ''x'' in
     30 \<in> report_user ` set (reports r1)
     \<and> report r1 30 Offensive ''again'' = r1
     \<and> (\<forall>v. entries_of v demo_review \<le> 1)
     \<and> entries_of 30 (report_all demo_review [(30, Spam, ''x''), (31, Other, ''''), (30, Offensive, ''again'')]) = 1)"
proof -
  have e: "\<forall>v. entries_of v demo_review \<le> 1" by (simp add: entries_of_def demo_review_def)
  have m: "30 \<in> report_user ` set (reports (report demo_review 30 Spam ''x''))"
    by (simp add: report_def demo_review_def)
  have c: "entries_of 30 (report_all demo_review [(30, Spam, ''x''), (31, Other, ''''), (30, Offensive, ''again'')]) = 1"
    by (simp add: report_def demo_review_def entries_of_def)
  from e m c
    report_idempotent_per_user [of 30 "report demo_review 30 Spam ''x''" Offensive "''again''" Offensive "''again''" "[]"]
    report_idempotent_per_user [of 30 demo_review Spam "''x''" Offensive "''again''" "[(30, Spam, ''x''), (31, Other, ''''), (30, Offensive, ''again'')]"]
  show ?thesis by (simp add: Let_def)
qed

section \<open>Category rollup\<close>

text \<open>The aggregation never divides by zero, so \<^verbatim>\<open>updateStats\<close> has a closed form.\<close>

lemma aggregate_result:
  "aggregate gs cid =
     (let ms = matched gs cid in
      if ms = [] then Inr []
      else Inr [\<lparr>gameCount = int (length ms),
                 totalPlayCount = sum_list (map stats_playCount ms),
                 averageRating = sum_list (map rating_average ms) / of_nat (length ms)\<rparr>])"
  by (simp add: aggregate_def js_div_def Let_def)

lemma updateStats_result:
  "updateStats c gs =
     (let ms = matched gs (category_id c) in
      if ms = [] then
        Inr (c\<lparr>stats_gameCount := 0, stats_totalPlayCount := 0, stats_averageRating := 0\<rparr>)
      else
        Inr (c\<lparr>stats_gameCount := int (length ms),
               stats_totalPlayCount := sum_list (map stats_playCount ms),
               stats_averageRating :=
                 of_int (Math_round (sum_list (map rating_average ms) / of_nat (length ms) * 10)) / 10\<rparr>))"
  by (simp add: updateStats_def aggregate_result Let_def)











section \<open>Rating bookkeeping\<close>

lemma totalRating_expand:
  "totalRating d = star1 d + 2 * star2 d + 3 * star3 d + 4 * star4 d + 5 * star5 d"
  by (simp add: totalRating_def dist_keys_def bucket_def)

lemma bump_declared: "1 \<le> k \<Longrightarrow> k \<le> 5 \<Longrightarrow> \<exists>d'. bump d k = Inr d'"
  by (simp add: bump_def bucket_def)

lemma bump_Inr:
  assumes "bump d k = Inr d'"
  shows "1 \<le> k \<and> k \<le> 5 \<and> dist_sum d' = dist_sum d + 1 \<and> totalRating d' = totalRating d + k"
  using assms
  by (auto simp: bump_def bucket_def set_bucket_def dist_sum_def totalRating_expand
           split: if_splits)

lemma bump_fault: "bump d k = Inl e \<Longrightarrow> e = UndeclaredBucket"
  by (auto simp: bump_def split: option.splits)

lemma updateRating_Inr:
  assumes "updateRating g r = Inr g'"
  shows "rating_count g' = rating_count g + 1
    \<and> dist_sum (rating_distribution g') = dist_sum (rating_distribution g) + 1
    \<and> totalRating (rating_distribution g') = totalRating (rating_distribution g) + r
    \<and> rating_average g' = of_int (totalRating (rating_distribution g')) / of_int (rating_count g')
    \<and> rating_count g' \<noteq> 0
    \<and> game_id g' = game_id g"
proof -
  from assms obtain d where d: "bump (rating_distribution g) r = Inr d"
    by (auto simp: updateRating_def split: sum.splits)
  from assms d have nz: "rating_count g + 1 \<noteq> 0"
    by (auto simp: updateRating_def js_div_def split: if_splits)
  from assms d nz have g': "g' = g\<lparr>rating_distribution := d,
      rating_average := of_int (totalRating d) / of_int (rating_count g + 1),
      rating_count := rating_count g + 1\<rparr>"
    by (simp add: updateRating_def js_div_def)
  from bump_Inr [OF d] nz show ?thesis by (simp add: g')
qed

lemma updateRating_total:
  assumes "1 \<le> r" and "r \<le> 5" and "0 \<le> rating_count g"
  shows "\<exists>g'. updateRating g r = Inr g'"
proof -
  from bump_declared [OF assms(1,2)] obtain d where "bump (rating_distribution g) r = Inr d"
    by blast
  with assms(3) show ?thesis by (simp add: updateRating_def js_div_def)
qed

lemma updateRating_no_zero_divisor:
  assumes "0 \<le> rating_count g"
  shows "updateRating g r \<noteq> Inl ZeroDivisor"
proof (cases "bump (rating_distribution g) r")
  case (Inl e)
  then show ?thesis using bump_fault [OF Inl] by (simp add: updateRating_def)
next
  case (Inr d)
  with assms show ?thesis by (simp add: updateRating_def js_div_def)
qed

lemma updateRating_inv: "rating_inv g \<Longrightarrow> updateRating g r = Inr g' \<Longrightarrow> rating_inv g'"
  using updateRating_Inr [of g r g'] by (simp add: rating_inv_def)

lemma tally_Inr:
  "tally d rvs = Inr d' \<Longrightarrow>
     dist_sum d' = dist_sum d + int (length rvs)
     \<and> totalRating d' = totalRating d + sum_list (map review_rating rvs)"
proof (induction rvs arbitrary: d)
  case Nil
  then show ?case by simp
next
  case (Cons rv rvs)
  from Cons.prems obtain d1 where d1: "bump d (review_rating rv) = Inr d1"
    and rest: "tally d1 rvs = Inr d'"
    by (auto split: sum.splits)
  from Cons.IH [OF rest] bump_Inr [OF d1] show ?case by simp
qed

lemma tally_fault: "tally d rvs = Inl e \<Longrightarrow> e = UndeclaredBucket"
proof (induction rvs arbitrary: d)
  case Nil
  then show ?case by simp
next
  case (Cons rv rvs)
  then show ?case by (auto split: sum.splits dest: bump_fault)
qed

lemma tally_total:
  "\<forall>rv \<in> set rvs. 1 \<le> review_rating rv \<and> review_rating rv \<le> 5 \<Longrightarrow> \<exists>d'. tally d rvs = Inr d'"
proof (induction rvs arbitrary: d)
  case Nil
  then show ?case by simp
next
  case (Cons rv rvs)
  from Cons.prems bump_declared [of "review_rating rv" d]
  obtain d1 where d1: "bump d (review_rating rv) = Inr d1" by auto
  from Cons.IH [of d1] Cons.prems d1 show ?case by simp
qed

lemma foldl_rating_sum:
  "foldl (\<lambda>sum rv. sum + review_rating rv) a rvs = a + sum_list (map review_rating rvs)"
  by (induction rvs arbitrary: a) simp_all

lemma rescan_zero_divisor: "(rescan g rvs = Inl ZeroDivisor) = (rvs = [])"
proof (cases "rvs = []")
  case True
  then show ?thesis by (simp add: rescan_def js_div_def)
next
  case False
  then show ?thesis
    by (auto simp: rescan_def js_div_def Let_def split: sum.splits dest: tally_fault)
qed

lemma rescan_Inr:
  assumes "rescan g rvs = Inr g'"
  shows "rvs \<noteq> [] \<and> rating_count g' = int (length rvs)
    \<and> dist_sum (rating_distribution g') = int (length rvs)
    \<and> rating_average g' = of_int (sum_list (map review_rating rvs)) / of_nat (length rvs)
    \<and> game_id g' = game_id g"
proof -
  from assms have ne: "rvs \<noteq> []"
    by (auto simp: rescan_def js_div_def)
  from assms ne obtain d where d: "tally zero_distribution rvs = Inr d"
    by (auto simp: rescan_def js_div_def Let_def split: sum.splits)
  from assms ne d have g': "g' = g\<lparr>rating_average :=
        of_int (foldl (\<lambda>sum rv. sum + review_rating rv) 0 rvs) / of_nat (length rvs),
      rating_count := int (length rvs), rating_distribution := d\<rparr>"
    by (simp add: rescan_def js_div_def Let_def)
  from tally_Inr [OF d] ne show ?thesis
    by (simp add: g' foldl_rating_sum dist_sum_def zero_distribution_def)
qed

lemma rescan_total:
  assumes "rvs \<noteq> []" and "\<forall>rv \<in> set rvs. 1 \<le> review_rating rv \<and> review_rating rv \<le> 5"
  shows "\<exists>g'. rescan g rvs = Inr g'"
proof -
  from tally_total [OF assms(2)] obtain d where "tally zero_distribution rvs = Inr d" by blast
  with assms(1) show ?thesis by (simp add: rescan_def js_div_def Let_def)
qed

lemma rescan_inv: "rescan g rvs = Inr g' \<Longrightarrow> rating_inv g'"
  using rescan_Inr [of g rvs g'] by (simp add: rating_inv_def)

lemma fav_step_reachable: "reachable g \<Longrightarrow> reachable (fav_step g c)"
  by (cases c)
     (auto intro: reachable.unrelated simp: incrementFavorites_def decrementFavorites_def)

lemma reachable_inv: "reachable g \<Longrightarrow> rating_inv g"
proof (induction rule: reachable.induct)
  case (new_game g)
  then show ?case
    by (simp add: rating_inv_def fresh_rating_def dist_sum_def zero_distribution_def)
next
  case (inserted g r g')
  then show ?case by (simp add: updateRating_inv)
next
  case (rescanned g rvs g')
  then show ?case by (simp add: rescan_inv)
next
  case (unrelated g g')
  then show ?case by (simp add: rating_inv_def)
qed

text \<open>
  C3. In every reachable game the five buckets add up to \<^verbatim>\<open>rating.count\<close>, and they do
  so again after each rating mutation: \<^verbatim>\<open>updateRating\<close> with a rating from 1 to 5 goes
  through and keeps the equation, and so does the rescan of the delete hook over a
  non-empty list of reviews with ratings from 1 to 5. (When no review remains the hook
  leaves the game as it is.)
\<close>

theorem distribution_sum_is_count:
  assumes "reachable g"
  shows "dist_sum (rating_distribution g) = rating_count g
    \<and> (1 \<le> r \<and> r \<le> 5 \<longrightarrow>
         (\<exists>g'. updateRating g r = Inr g' \<and> dist_sum (rating_distribution g') = rating_count g'))
    \<and> (rvs \<noteq> [] \<and> (\<forall>rv \<in> set rvs. 1 \<le> review_rating rv \<and> review_rating rv \<le> 5) \<longrightarrow>
         (\<exists>g'. rescan g rvs = Inr g' \<and> dist_sum (rating_distribution g') = rating_count g'))
    \<and> (\<forall>g'. updateRating g r = Inr g' \<or> rescan g rvs = Inr g' \<longrightarrow>
         dist_sum (rating_distribution g') = rating_count g')"
proof (intro conjI impI allI)
  from reachable_inv [OF assms] show "dist_sum (rating_distribution g) = rating_count g"
    by (simp add: rating_inv_def)
next
  assume r: "1 \<le> r \<and> r \<le> 5"
  from reachable_inv [OF assms] have "0 \<le> rating_count g" by (simp add: rating_inv_def)
  with r updateRating_total [of r g] obtain g' where g': "updateRating g r = Inr g'" by blast
  from reachable_inv [OF reachable.inserted [OF assms g']] g'
  show "\<exists>g'. updateRating g r = Inr g' \<and> dist_sum (rating_distribution g') = rating_count g'"
    by (auto simp: rating_inv_def)
next
  assume a: "rvs \<noteq> [] \<and> (\<forall>rv \<in> set rvs. 1 \<le> review_rating rv \<and> review_rating rv \<le> 5)"
  with rescan_total [of rvs g] obtain g' where g': "rescan g rvs = Inr g'" by blast
  from rescan_inv [OF g'] g'
  show "\<exists>g'. rescan g rvs = Inr g' \<and> dist_sum (rating_distribution g') = rating_count g'"
    by (auto simp: rating_inv_def)
next
  fix g'
  assume "updateRating g r = Inr g' \<or> rescan g rvs = Inr g'"
  then have "reachable g'"
    using assms by (auto intro: reachable.inserted reachable.rescanned)
  from reachable_inv [OF this] show "dist_sum (rating_distribution g') = rating_count g'"
    by (simp add: rating_inv_def)
qed

text \<open>The game reviewed with 5, 5 and 1 is reachable from the new game.\<close>

lemma demo_rated_reachable: "reachable demo_rated"
proof -
  have f: "fresh_rating demo_game"
    by (simp add: fresh_rating_def demo_game_def)
  have 1: "updateRating demo_game 5 = Inr (demo_game\<lparr>rating_average := 5, rating_count := 1,
     rating_distribution := \<lparr>star1 = 0, star2 = 0, star3 = 0, star4 = 0, star5 = 1\<rparr>\<rparr>)"
    by (simp add: updateRating_def bump_def bucket_def set_bucket_def js_div_def
        totalRating_expand demo_game_def zero_distribution_def)
  have 2: "updateRating (demo_game\<lparr>rating_average := 5, rating_count := 1,
     rating_distribution := \<lparr>star1 = 0, star2 = 0, star3 = 0, star4 = 0, star5 = 1\<rparr>\<rparr>) 5
     = Inr (demo_game\<lparr>rating_average := 5, rating_count := 2,
     rating_distribution := \<lparr>star1 = 0, star2 = 0, star3 = 0, star4 = 0, star5 = 2\<rparr>\<rparr>)"
    by (simp add: updateRating_def bump_def bucket_def set_bucket_def js_div_def
        totalRating_expand demo_game_def zero_distribution_def)
  have 3: "updateRating (demo_game\<lparr>rating_average := 5, rating_count := 2,
     rating_distribution := \<lparr>star1 = 0, star2 = 0, star3 = 0, star4 = 0, star5 = 2\<rparr>\<rparr>) 1
     = Inr demo_rated"
    by (simp add: updateRating_def bump_def bucket_def set_bucket_def js_div_def
        totalRating_expand demo_game_def zero_distribution_def demo_rated_def)
  from reachable.new_game [OF f] 1 2 3 show ?thesis
    by (blast intro: reachable.inserted)
qed

theorem distribution_sum_is_count_witness:
  "reachable demo_rated
   \<and> dist_sum (rating_distribution demo_rated) = 3 \<and> rating_count demo_rated = 3
   \<and> (\<exists>g'. updateRating demo_rated 4 = Inr g' \<and> rating_count g' = 4
          \<and> dist_sum (rating_distribution g') = rating_count g')
   \<and> (\<exists>g'. rescan demo_rated demo_reviews = Inr g' \<and> rating_count g' = 2
          \<and> dist_sum (rating_distribution g') = rating_count g')"
proof -
  note t = distribution_sum_is_count [OF demo_rated_reachable, of 4 demo_reviews]
  have r: "(1::int) \<le> 4 \<and> (4::int) \<le> 5" by simp
  have v: "demo_reviews \<noteq> [] \<and> (\<forall>rv \<in> set demo_reviews. 1 \<le> review_rating rv \<and> review_rating rv \<le> 5)"
    by (simp add: demo_reviews_def)
  have c: "rating_count demo_rated = 3" by (simp add: demo_rated_def)
  from t r obtain g1 where g1: "updateRating demo_rated 4 = Inr g1"
    "dist_sum (rating_distribution g1) = rating_count g1" by blast
  from t v obtain g2 where g2: "rescan demo_rated demo_reviews = Inr g2"
    "dist_sum (rating_distribution g2) = rating_count g2" by blast
  from updateRating_Inr [OF g1(1)] c have c1: "rating_count g1 = 4" by simp
  from rescan_Inr [OF g2(1)] have c2: "rating_count g2 = 2" by (simp add: demo_reviews_def)
  from t c have s: "dist_sum (rating_distribution demo_rated) = 3" by simp
  from demo_rated_reachable s c g1 c1 g2 c2 show ?thesis by blast
qed

section \<open>Division guards\<close>

lemma post_findOneAndDelete_no_zero_divisor: "post_findOneAndDelete s doc \<noteq> Inl ZeroDivisor"
proof -
  have "rvs \<noteq> [] \<Longrightarrow> rescan g rvs \<noteq> Inl ZeroDivisor" for g rvs
    by (simp add: rescan_zero_divisor)
  then show ?thesis
    by (auto simp: post_findOneAndDelete_def Let_def split: option.splits sum.splits)
qed

text \<open>
  C7. No average is computed with a zero divisor. A reachable game with count 0 has
  average 0; \<^verbatim>\<open>updateRating\<close> divides by count + 1, which is at least 1 there; the
  rescan would divide by zero exactly on an empty list, and the delete hook, which calls
  it on non-empty lists only, never does; the category rollup never does, and sets the
  average to 0 when the category has no active game. (The popularity score has no
  division.)
\<close>

theorem no_zero_divisor:
  "(reachable g \<longrightarrow>
      (rating_count g = 0 \<longrightarrow> rating_average g = 0)
      \<and> rating_count g + 1 \<ge> 1
      \<and> updateRating g r \<noteq> Inl ZeroDivisor)
   \<and> (rescan g rvs = Inl ZeroDivisor) = (rvs = [])
   \<and> post_findOneAndDelete s doc \<noteq> Inl ZeroDivisor
   \<and> updateStats c gs \<noteq> Inl ZeroDivisor
   \<and> (matched gs (category_id c) = [] \<longrightarrow>
        (\<exists>c'. updateStats c gs = Inr c' \<and> stats_averageRating c' = 0))"
proof (intro conjI impI)
  assume "reachable g"
  then have i: "rating_inv g" by (rule reachable_inv)
  { assume "rating_count g = 0"
    with i show "rating_average g = 0" by (simp add: rating_inv_def) }
  from i show "rating_count g + 1 \<ge> 1" by (simp add: rating_inv_def)
  from i show "updateRating g r \<noteq> Inl ZeroDivisor"
    by (simp add: rating_inv_def updateRating_no_zero_divisor)
next
  show "(rescan g rvs = Inl ZeroDivisor) = (rvs = [])" by (rule rescan_zero_divisor)
next
  show "post_findOneAndDelete s doc \<noteq> Inl ZeroDivisor"
    by (rule post_findOneAndDelete_no_zero_divisor)
next
  show "updateStats c gs \<noteq> Inl ZeroDivisor" by (simp add: updateStats_result Let_def)
next
  assume "matched gs (category_id c) = []"
  then show "\<exists>c'. updateStats c gs = Inr c' \<and> stats_averageRating c' = 0"
    by (simp add: updateStats_result)
qed

text \<open>
  The new game; the delete hook on a store without reviews; category 9, which has no game.
\<close>

theorem no_zero_divisor_witness:
  "reachable demo_game \<and> rating_count demo_game = 0 \<and> rating_average demo_game = 0
   \<and> updateRating demo_game 5 \<noteq> Inl ZeroDivisor
   \<and> rescan demo_game [] = Inl ZeroDivisor
   \<and> post_findOneAndDelete demo_db (Some (hd demo_reviews)) = Inr demo_db
   \<and> matched demo_games (category_id (demo_category\<lparr>category_id := 9\<rparr>)) = []
   \<and> (\<exists>c'. updateStats (demo_category\<lparr>category_id := 9\<rparr>) demo_games = Inr c'
          \<and> stats_averageRating c' = 0)"
proof -
  have f: "reachable demo_game"
    by (rule reachable.new_game) (simp add: fresh_rating_def demo_game_def)
  have c: "rating_count demo_game = 0" by (simp add: demo_game_def)
  have m: "matched demo_games (category_id (demo_category\<lparr>category_id := 9\<rparr>)) = []"
    by (simp add: matched_def demo_games_def demo_game_def)
  have h: "post_findOneAndDelete demo_db (Some (hd demo_reviews)) = Inr demo_db"
    by (simp add: post_findOneAndDelete_def demo_db_def demo_reviews_def findById_game_def
        active_reviews_def demo_game_def)
  note t = no_zero_divisor [of demo_game 5 "[]" demo_db "Some (hd demo_reviews)"
      "demo_category\<lparr>category_id := 9\<rparr>" demo_games]
  from t f c m h show ?thesis by simp
qed

section \<open>Review submissions\<close>

text \<open>
  One accepted submission. The hook inside \<^verbatim>\<open>Review.create\<close> reads the game, applies
  \<^verbatim>\<open>updateRating\<close> and saves. The route then applies \<^verbatim>\<open>updateRating\<close> to its own copy,
  read before the review existed, and saves that: the same rating on the same old values,
  so the second save stores what the first one stored.
\<close>

lemma find_save_game:
  "find (\<lambda>g. game_id g = i) gs = Some g \<Longrightarrow> game_id g' = i \<Longrightarrow>
   find (\<lambda>g. game_id g = i) (map (\<lambda>h. if game_id h = i then g' else h) gs) = Some g'"
  by (induction gs) (auto split: if_splits)

lemma findById_save_game:
  "findById_game s i = Some g \<Longrightarrow> game_id g' = i \<Longrightarrow> findById_game (save_game s g') i = Some g'"
  by (simp add: findById_game_def save_game_def find_save_game)

lemma findById_game_id: "findById_game s i = Some g \<Longrightarrow> game_id g = i"
  by (auto simp: findById_game_def find_Some_iff)

lemma find_active_None:
  "(find (\<lambda>rv. review_game rv = gid \<and> review_user rv = uid \<and> review_status rv = ReviewActive) rvs = None)
   = (uid \<notin> review_user ` set (filter (\<lambda>rv. review_game rv = gid \<and> review_status rv = ReviewActive) rvs))"
  by (induction rvs) auto

lemma post_review_Created:
  assumes g: "findById_game s gid = Some g"
    and r: "1 \<le> r" "r \<le> 5"
    and c: "0 \<le> rating_count g"
    and u: "uid \<notin> review_user ` set (active_reviews s gid)"
  shows "\<exists>s' g' doc. post_review s gid uid r = Inr (Created, s')
    \<and> updateRating g r = Inr g'
    \<and> findById_game s' gid = Some g'
    \<and> reviews s' = reviews s @ [doc]
    \<and> review_game doc = gid \<and> review_user doc = uid \<and> review_rating doc = r
    \<and> review_status doc = ReviewActive"
proof -
  from updateRating_total [OF r c] obtain g' where g': "updateRating g r = Inr g'" by blast
  from updateRating_Inr [OF g'] findById_game_id [OF g] have id: "game_id g' = gid" by simp
  define doc where "doc = \<lparr>review_id = new_review_id s, review_game = gid, review_user = uid,
                 review_rating = r, review_status = ReviewActive,
                 helpful_count = 0, helpful_users = [], reports = []\<rparr>"
  define s0 where "s0 = s\<lparr>reviews := reviews s @ [doc]\<rparr>"
  have g0: "findById_game s0 gid = Some g" using g by (simp add: s0_def findById_game_def)
  have hook: "post_save s0 doc = Inr (save_game s0 g')"
    using g0 g' by (simp add: post_save_def doc_def)
  have create: "Review_create s gid uid r = Inr (save_game s0 g')"
    using hook by (simp add: Review_create_def Let_def doc_def [symmetric] s0_def [symmetric])
  from u have nf: "find (\<lambda>rv. review_game rv = gid \<and> review_user rv = uid \<and>
                               review_status rv = ReviewActive) (reviews s) = None"
    by (simp add: find_active_None active_reviews_def)
  have res: "post_review s gid uid r = Inr (Created, save_game (save_game s0 g') g')"
    using r g nf create g' by (simp add: post_review_def)
  have f1: "findById_game (save_game s0 g') gid = Some g'"
    using g0 id by (rule findById_save_game)
  have f2: "findById_game (save_game (save_game s0 g') g') gid = Some g'"
    using f1 id by (rule findById_save_game)
  have rv: "reviews (save_game (save_game s0 g') g') = reviews s @ [doc]"
    by (simp add: save_game_def s0_def)
  from res g' f2 rv show ?thesis by (auto simp: doc_def)
qed

lemma post_review_duplicate:
  assumes "findById_game s gid = Some g" and "1 \<le> r" and "r \<le> 5"
    and "uid \<in> review_user ` set (active_reviews s gid)"
  shows "post_review s gid uid r = Inr (BadRequest, s)"
proof -
  from assms(4) have "find (\<lambda>rv. review_game rv = gid \<and> review_user rv = uid \<and>
      review_status rv = ReviewActive) (reviews s) \<noteq> None"
    by (simp add: find_active_None active_reviews_def)
  with assms(1-3) show ?thesis by (auto simp: post_review_def)
qed

lemma submit_all_general:
  assumes "findById_game s gid = Some g"
    and "0 \<le> rating_count g"
    and "distinct (map fst subs)"
    and "\<forall>(u, r) \<in> set subs. 1 \<le> r \<and> r \<le> 5"
    and "\<forall>(u, r) \<in> set subs. u \<notin> review_user ` set (active_reviews s gid)"
  shows "\<exists>s' g'. submit_all s gid subs = Inr (replicate (length subs) Created, s')
    \<and> findById_game s' gid = Some g'
    \<and> rating_count g' = rating_count g + int (length subs)
    \<and> totalRating (rating_distribution g')
        = totalRating (rating_distribution g) + sum_list (map snd subs)
    \<and> dist_sum (rating_distribution g')
        = dist_sum (rating_distribution g) + int (length subs)
    \<and> (subs \<noteq> [] \<longrightarrow>
         rating_average g' = of_int (totalRating (rating_distribution g')) / of_int (rating_count g'))
    \<and> length (active_reviews s' gid) = length (active_reviews s gid) + length subs"
  using assms
proof (induction subs arbitrary: s g)
  case Nil
  then show ?case by simp
next
  case (Cons sub subs)
  obtain uid r where sub: "sub = (uid, r)" by (cases sub)
  from Cons.prems sub have r: "1 \<le> r" "r \<le> 5"
    and u: "uid \<notin> review_user ` set (active_reviews s gid)" by auto
  from post_review_Created [OF Cons.prems(1) r Cons.prems(2) u]
  obtain s1 g1 doc where p: "post_review s gid uid r = Inr (Created, s1)"
    and g1: "updateRating g r = Inr g1"
    and f1: "findById_game s1 gid = Some g1"
    and rv1: "reviews s1 = reviews s @ [doc]"
    and doc: "review_game doc = gid" "review_user doc = uid" "review_status doc = ReviewActive"
    by blast
  note u1 = updateRating_Inr [OF g1]
  from u1 Cons.prems(2) have c1: "0 \<le> rating_count g1" by simp
  have act1: "active_reviews s1 gid = active_reviews s gid @ [doc]"
    by (simp add: active_reviews_def rv1 doc)
  from Cons.prems(3) sub have d1: "distinct (map fst subs)" and nu: "uid \<notin> fst ` set subs"
    by simp_all
  from Cons.prems(4) have r1: "\<forall>(u, r) \<in> set subs. 1 \<le> r \<and> r \<le> 5" by simp
  have n1: "\<forall>(u, r) \<in> set subs. u \<notin> review_user ` set (active_reviews s1 gid)"
  proof (clarify)
    fix u r' x
    assume m: "(review_user x, r') \<in> set subs" and x: "x \<in> set (active_reviews s1 gid)"
    from m Cons.prems(5) have "review_user x \<notin> review_user ` set (active_reviews s gid)"
      by auto
    with x act1 have "x = doc" by auto
    with m nu doc show False by force
  qed
  from Cons.IH [OF f1 c1 d1 r1 n1]
  obtain s' g' where
    run: "submit_all s1 gid subs = Inr (replicate (length subs) Created, s')"
    and f': "findById_game s' gid = Some g'"
    and cnt: "rating_count g' = rating_count g1 + int (length subs)"
    and tot: "totalRating (rating_distribution g')
        = totalRating (rating_distribution g1) + sum_list (map snd subs)"
    and ds: "dist_sum (rating_distribution g')
        = dist_sum (rating_distribution g1) + int (length subs)"
    and avg: "subs \<noteq> [] \<longrightarrow>
         rating_average g' = of_int (totalRating (rating_distribution g')) / of_int (rating_count g')"
    and len: "length (active_reviews s' gid) = length (active_reviews s1 gid) + length subs"
    by blast
  have run': "submit_all s gid (sub # subs) = Inr (replicate (length (sub # subs)) Created, s')"
    using p run by (simp add: sub)
  have avg': "rating_average g' = of_int (totalRating (rating_distribution g')) / of_int (rating_count g')"
  proof (cases "subs = []")
    case True
    with run f' f1 have "g' = g1" by simp
    with u1 show ?thesis by simp
  next
    case False
    with avg show ?thesis by simp
  qed
  from run' f' cnt tot ds avg' len u1 act1 show ?case
    by (intro exI [of _ s'] exI [of _ g']) (simp add: sub)
qed

text \<open>
  C1. Take a game with count 0, all buckets 0 and no active review, and N submissions with
  ratings from 1 to 5 by N different users (the route turns away a user who already has an
  active review of the game before anything is created, see \<open>post_review_duplicate\<close>).
  Every submission is answered 201, the game then has N active reviews and
  \<^verbatim>\<open>rating.count\<close> N, and for N > 0 its average is the sum of the ratings divided by N.
\<close>

theorem submissions_count_and_mean:
  assumes "findById_game s gid = Some g"
    and "rating_count g = 0" and "rating_distribution g = zero_distribution"
    and "active_reviews s gid = []"
    and "distinct (map fst subs)"
    and "\<forall>(u, r) \<in> set subs. 1 \<le> r \<and> r \<le> 5"
  shows "\<exists>s' g'. submit_all s gid subs = Inr (replicate (length subs) Created, s')
    \<and> findById_game s' gid = Some g'
    \<and> length (active_reviews s' gid) = length subs
    \<and> rating_count g' = int (length subs)
    \<and> (subs \<noteq> [] \<longrightarrow>
         rating_average g' = of_int (sum_list (map snd subs)) / of_nat (length subs))"
proof -
  from assms(2,3) have c: "0 \<le> rating_count g" and z: "rating_count g = 0"
    and t: "totalRating (rating_distribution g) = 0"
    by (simp_all add: totalRating_expand zero_distribution_def)
  from assms(4) have n: "\<forall>(u, r) \<in> set subs. u \<notin> review_user ` set (active_reviews s gid)"
    by simp
  from submit_all_general [OF assms(1) c assms(5,6) n] z t assms(4)
  show ?thesis by auto
qed

text \<open>The reviews 5, 5, 5 and 1: four answers 201, count 4 and average 4.\<close>

theorem submissions_count_and_mean_witness:
  "findById_game demo_db 1 = Some demo_game
   \<and> rating_count demo_game = 0 \<and> rating_distribution demo_game = zero_distribution
   \<and> active_reviews demo_db 1 = []
   \<and> distinct (map fst demo_subs)
   \<and> list_all (\<lambda>(u, r). 1 \<le> r \<and> r \<le> 5) demo_subs
   \<and> (\<exists>s' g'. submit_all demo_db 1 demo_subs = Inr ([Created, Created, Created, Created], s')
         \<and> findById_game s' 1 = Some g'
         \<and> rating_count g' = 4 \<and> rating_average g' = 4)"
proof -
  have a: "findById_game demo_db 1 = Some demo_game"
    by (simp add: findById_game_def demo_db_def demo_game_def)
  have b: "rating_count demo_game = 0" "rating_distribution demo_game = zero_distribution"
    by (simp_all add: demo_game_def)
  have c: "active_reviews demo_db 1 = []" by (simp add: active_reviews_def demo_db_def)
  have d: "distinct (map fst demo_subs)" by (simp add: demo_subs_def)
  have e: "\<forall>(u, r) \<in> set demo_subs. 1 \<le> r \<and> r \<le> 5" by (simp add: demo_subs_def)
  have l: "int (length demo_subs) = 4" and ne: "demo_subs \<noteq> []"
    and rep: "replicate (length demo_subs) Created = [Created, Created, Created, Created]"
    and m: "of_int (sum_list (map snd demo_subs)) / of_nat (length demo_subs) = (4::rat)"
    by (simp_all add: demo_subs_def)
  from submissions_count_and_mean [OF a b c d e]
  obtain s' g' where "submit_all demo_db 1 demo_subs = Inr (replicate (length demo_subs) Created, s')"
    and "findById_game s' 1 = Some g'"
    and "rating_count g' = int (length demo_subs)"
    and "demo_subs \<noteq> [] \<longrightarrow>
         rating_average g' = of_int (sum_list (map snd demo_subs)) / of_nat (length demo_subs)"
    by blast
  with l ne rep m
  have "\<exists>s' g'. submit_all demo_db 1 demo_subs = Inr ([Created, Created, Created, Created], s')
         \<and> findById_game s' 1 = Some g'
         \<and> rating_count g' = 4 \<and> rating_average g' = 4"
    by (intro exI [of _ s'] exI [of _ g']) simp
  moreover have "list_all (\<lambda>(u, r). 1 \<le> r \<and> r \<le> 5) demo_subs"
    by (simp add: demo_subs_def)
  ultimately show ?thesis using a b c d by blast
qed

section \<open>Deleting the last review\<close>

lemma demo_post: "post_review demo_db 1 10 5 = Inr (Created, demo_one_review)"
  by (simp add: post_review_def Review_create_def post_save_def findById_game_def save_game_def
      updateRating_def bump_def bucket_def set_bucket_def js_div_def totalRating_expand
      new_review_id_def demo_db_def demo_game_def zero_distribution_def demo_one_review_def
      demo_reviews_def Let_def)

text \<open>
  C2. User 10 reviews game 1 with five stars and then deletes that review. The delete route
  answers 200 and no active review of game 1 remains, but the hook finds an empty list and
  skips the recomputation: the game keeps count 1 and average 5, where the claim has 0 and
  0.
\<close>

theorem delete_last_review_keeps_rating:
  "post_review demo_db 1 10 5 = Inr (Created, demo_one_review)
   \<and> delete_review demo_one_review 10 False 1 = Inr (Ok, demo_one_review\<lparr>reviews := []\<rparr>)
   \<and> active_reviews (demo_one_review\<lparr>reviews := []\<rparr>) 1 = []
   \<and> map rating_count (games (demo_one_review\<lparr>reviews := []\<rparr>)) = [1, 0]
   \<and> map rating_average (games (demo_one_review\<lparr>reviews := []\<rparr>)) = [5, 0]"
proof -
  have d: "delete_review demo_one_review 10 False 1 = Inr (Ok, demo_one_review\<lparr>reviews := []\<rparr>)"
    by (simp add: delete_review_def findById_review_def findByIdAndDelete_def
        post_findOneAndDelete_def findById_game_def active_reviews_def
        demo_one_review_def demo_reviews_def demo_game_def Let_def)
  have r: "active_reviews (demo_one_review\<lparr>reviews := []\<rparr>) 1 = []"
    by (simp add: active_reviews_def)
  have g: "map rating_count (games (demo_one_review\<lparr>reviews := []\<rparr>)) = [1, 0]"
    "map rating_average (games (demo_one_review\<lparr>reviews := []\<rparr>)) = [5, 0]"
    by (simp_all add: demo_one_review_def demo_game_def)
  from demo_post d r g show ?thesis by simp
qed

end
